theory Spec2Isabelle
  imports Complex_Main "HOL-Library.Word"
begin

section \<open>The streaming transport of the museum pose frontend\<close>

text \<open>
  The development follows two source files: \<^verbatim>\<open>utils/coordinateTransform.ts\<close>, whose
  second half is the React hook \<^verbatim>\<open>useWebSocket\<close>, and \<^verbatim>\<open>utils/performanceUtils.ts\<close>
  with the classes \<^verbatim>\<open>ArrayBufferUtils\<close>, \<^verbatim>\<open>FrameRateOptimizer\<close> and
  \<^verbatim>\<open>LatencyMonitor\<close>.

  Conventions. An \<^verbatim>\<open>ArrayBuffer\<close> is a list of bytes. A JavaScript \<^verbatim>\<open>number\<close> that
  holds a clock reading of \<^verbatim>\<open>performance.now()\<close>, a latency or a frame rate is a real
  number and its arithmetic is exact (the rounding of IEEE doubles is left out); a
  millisecond timestamp of \<^verbatim>\<open>Date.now()\<close> is an integer, and where such an integer
  passes through \<^verbatim>\<open>Number\<close> its rounding to a double is modelled; a counter is a
  natural number. A built-in that throws returns \<open>Inl\<close> of the exception. Every
  reading of a clock is an explicit argument.
\<close>

type_synonym byte = "8 word"

subsection \<open>The hook \<^verbatim>\<open>useWebSocket\<close>\<close>

text \<open>
  \<^verbatim>\<open>sendMessage(data: any)\<close> distinguishes two kinds of data: an \<^verbatim>\<open>ArrayBuffer\<close>, sent
  as it is, and anything else, sent as the JSON text of the object extended by a
  \<^verbatim>\<open>timestamp\<close> field. A frame is what reaches \<^verbatim>\<open>ws.send\<close>.
\<close>

datatype message = ArrayBufferMsg "byte list" | ObjectMsg string

datatype frame = BinaryFrame "byte list" | TextFrame string nat

datatype ready_state = CONNECTING | OPEN | CLOSING | CLOSED

datatype connection_status = Connecting | Connected | Disconnected | Reconnecting

text \<open>
  The state of one hook instance: the React state variables, the refs, and two logs of
  what the hook did to the outside (the frames given to the socket, in order, and the
  number of \<^verbatim>\<open>console.warn\<close> calls about a dropped message). \<open>wsRef\<close> is \<open>None\<close>
  for \<^verbatim>\<open>null\<close> and otherwise the \<^verbatim>\<open>readyState\<close> of the socket; \<open>heartbeatRef\<close> tells
  whether the 30 s interval is running; \<open>reconnectTimeoutRef\<close> is the delay of the
  pending reconnect timer.
\<close>

record hook =
  isConnected :: bool
  error :: "string option"
  messageQueueSize :: nat
  connectionStatus :: connection_status
  wsRef :: "ready_state option"
  messageQueue :: "message list"
  reconnectAttempts :: nat
  heartbeatRef :: bool
  reconnectTimeoutRef :: "nat option"
  sent :: "frame list"
  warnings :: nat


definition initial_hook :: hook where
  "initial_hook = \<lparr>isConnected = False, error = None, messageQueueSize = 0,
     connectionStatus = Disconnected, wsRef = None, messageQueue = [],
     reconnectAttempts = 0, heartbeatRef = False, reconnectTimeoutRef = None,
     sent = [], warnings = 0\<rparr>"

text \<open>
  \<^verbatim>\<open>connect\<close>: \<^verbatim>\<open>new WebSocket(url)\<close> throws on a URL it cannot parse, which the
  \<^verbatim>\<open>catch\<close> turns into an error state; \<open>urlOk\<close> says which of the two happens.
\<close>

definition connect :: "bool \<Rightarrow> hook \<Rightarrow> hook" where
  "connect urlOk s =
     (if urlOk then s\<lparr>connectionStatus := Connecting, wsRef := Some CONNECTING\<rparr>
      else s\<lparr>connectionStatus := Disconnected,
             error := Some ''Failed to create WebSocket connection''\<rparr>)"

text \<open>\<^verbatim>\<open>ws.onopen\<close>; the socket that fires it is in state \<^verbatim>\<open>OPEN\<close>.\<close>

definition onopen :: "hook \<Rightarrow> hook" where
  "onopen s = s\<lparr>isConnected := True, error := None, messageQueueSize := 0,
     connectionStatus := Connected, messageQueue := [], reconnectAttempts := 0,
     heartbeatRef := True, wsRef := Some OPEN\<rparr>"


text \<open>
  \<^verbatim>\<open>sendMessage\<close>, with \<open>now\<close> the value of \<^verbatim>\<open>Date.now()\<close>. In the queueing
  branch \<^verbatim>\<open>setMessageQueueSize\<close> runs before the length check, so the size it publishes
  is the length after the push and before the \<^verbatim>\<open>shift\<close>.
\<close>

definition sendMessage :: "nat \<Rightarrow> message \<Rightarrow> hook \<Rightarrow> hook" where
  "sendMessage now data s =
     (if wsRef s = Some OPEN then
        (case data of
           ArrayBufferMsg b \<Rightarrow> s\<lparr>sent := sent s @ [BinaryFrame b]\<rparr>
         | ObjectMsg j \<Rightarrow> s\<lparr>sent := sent s @ [TextFrame j now]\<rparr>)
      else
        (let q = messageQueue s @ [data];
             s1 = s\<lparr>messageQueue := q, messageQueueSize := length q\<rparr>
         in if length q > 50
            then s1\<lparr>messageQueue := tl q, warnings := warnings s1 + 1\<rparr>
            else s1))"

text \<open>
  The effect commented \<^verbatim>\<open>Process queued messages when connected\<close>, which React runs
  after a render in which \<^verbatim>\<open>isConnected\<close> changed. The project runs on React 18, which
  collects the state updates made inside a callback and renders once the callback has
  returned: the effect therefore meets the state that \<open>onopen\<close> leaves behind, refs
  included. The \<^verbatim>\<open>forEach\<close> is a left fold; one clock reading stands for those of the
  whole synchronous loop.
\<close>

definition flushEffect :: "nat \<Rightarrow> hook \<Rightarrow> hook" where
  "flushEffect now s =
     (if isConnected s \<and> length (messageQueue s) > 0 then
        (let queuedMessages = messageQueue s;
             s1 = s\<lparr>messageQueue := [], messageQueueSize := 0\<rparr>
         in foldl (\<lambda>st msg. sendMessage now msg st) s1 queuedMessages)
      else s)"




text \<open>
  Two abbreviations for the statements below: the frame that \<open>sendMessage\<close> hands to
  an open socket for a given message, and a caller submitting several messages in a row.
\<close>

definition frame_of :: "nat \<Rightarrow> message \<Rightarrow> frame" where
  "frame_of now data =
     (case data of ArrayBufferMsg b \<Rightarrow> BinaryFrame b | ObjectMsg j \<Rightarrow> TextFrame j now)"

definition sendAll :: "nat \<Rightarrow> message list \<Rightarrow> hook \<Rightarrow> hook" where
  "sendAll now msgs s = foldl (\<lambda>st msg. sendMessage now msg st) s msgs"

subsection \<open>The frame codec \<^verbatim>\<open>ArrayBufferUtils\<close>\<close>

text \<open>
  The source has no exception class of its own. What can throw in the codec are the
  built-ins on buffers and views, which throw a \<^verbatim>\<open>RangeError\<close> on an access outside
  the buffer.
\<close>

datatype js_error = RangeError

definition METADATA_SIZE :: nat where
  "METADATA_SIZE = 24"

definition TIMESTAMP_OFFSET :: nat where
  "TIMESTAMP_OFFSET = 0"

definition UUID_OFFSET :: nat where
  "UUID_OFFSET = 8"

text \<open>
  \<^verbatim>\<open>xs.slice(a, b)\<close> and \<^verbatim>\<open>xs.slice(a)\<close> of arrays, strings and buffers: a negative
  index counts from the end, and both indices are clamped to the length.
\<close>

definition slice :: "'a list \<Rightarrow> int \<Rightarrow> int \<Rightarrow> 'a list" where
  "slice xs a b =
     (let n = int (length xs);
          start = (if a < 0 then max (n + a) 0 else min a n);
          stop = (if b < 0 then max (n + b) 0 else min b n)
      in drop (nat start) (take (nat stop) xs))"

definition sliceFrom :: "'a list \<Rightarrow> int \<Rightarrow> 'a list" where
  "sliceFrom xs a = slice xs a (int (length xs))"

text \<open>The big-endian bytes of a value, lowest byte last, and the value of such bytes.\<close>

fun be_bytes :: "nat \<Rightarrow> int \<Rightarrow> byte list" where
  "be_bytes 0 v = []"
| "be_bytes (Suc k) v = be_bytes k (v div 256) @ [word_of_int (v mod 256)]"

definition be_value :: "byte list \<Rightarrow> int" where
  "be_value bs = foldl (\<lambda>acc b. acc * 256 + uint b) 0 bs"

text \<open>
  \<^verbatim>\<open>DataView.setBigUint64(byteOffset, v, false)\<close> stores \<open>v\<close> modulo \<open>2 ^ 64\<close> in eight
  bytes, and \<^verbatim>\<open>getBigUint64(byteOffset, false)\<close> reads them; both throw when the eight
  bytes do not lie inside the buffer.
\<close>

definition setBigUint64 :: "byte list \<Rightarrow> nat \<Rightarrow> int \<Rightarrow> js_error + byte list" where
  "setBigUint64 buf byteOffset v =
     (if byteOffset + 8 > length buf then Inl RangeError
      else Inr (take byteOffset buf @ be_bytes 8 (v mod 2 ^ 64) @ drop (byteOffset + 8) buf))"

definition getBigUint64 :: "byte list \<Rightarrow> nat \<Rightarrow> js_error + int" where
  "getBigUint64 buf byteOffset =
     (if byteOffset + 8 > length buf then Inl RangeError
      else Inr (be_value (take 8 (drop byteOffset buf))))"

text \<open>
  \<^verbatim>\<open>new Uint8Array(buf, byteOffset, len)\<close> is a window on the buffer; it throws when the
  window does not lie inside the buffer. \<open>Uint8Array_on\<close> is what the window shows.
  \<^verbatim>\<open>view.set(src, pos)\<close> writes through the window into the buffer and throws when the
  source does not fit; \<open>set_through\<close> returns the buffer after the write.
\<close>

definition Uint8Array_on :: "byte list \<Rightarrow> nat \<Rightarrow> nat \<Rightarrow> js_error + byte list" where
  "Uint8Array_on buf byteOffset len =
     (if byteOffset + len > length buf then Inl RangeError
      else Inr (take len (drop byteOffset buf)))"

definition set_through ::
  "byte list \<Rightarrow> nat \<Rightarrow> nat \<Rightarrow> byte list \<Rightarrow> nat \<Rightarrow> js_error + byte list" where
  "set_through buf byteOffset len src pos =
     (if pos + length src > len then Inl RangeError
      else Inr (take (byteOffset + pos) buf @ src
                @ drop (byteOffset + pos + length src) buf))"

text \<open>
  \<^verbatim>\<open>Number(b)\<close> of a BigInt \<open>b\<close>: the nearest IEEE double, ties to the even
  significand. Integers of at most 53 bits are doubles; a longer one keeps its 53 leading
  bits. (The magnitudes met here stay below \<open>2 ^ 64\<close>, far from the overflow to
  infinity.)
\<close>

function bit_length :: "int \<Rightarrow> nat" where
  "bit_length n = (if n \<le> 0 then 0 else Suc (bit_length (n div 2)))"
  by pat_completeness auto
termination
  by (relation "measure nat") auto

declare bit_length.simps [simp del]

definition Number_of :: "int \<Rightarrow> int" where
  "Number_of n =
     (let m = \<bar>n\<bar>; e = bit_length m - 53 in
      if e = 0 then n
      else (let q = m div 2 ^ e; r = m mod 2 ^ e; half = 2 ^ (e - 1)
            in sgn n * (if r > half \<or> (r = half \<and> odd q) then (q + 1) * 2 ^ e
                        else q * 2 ^ e)))"

text \<open>
  \<^verbatim>\<open>parseInt(s, 16)\<close>: leading white space is skipped, then an optional sign, then an
  optional \<^verbatim>\<open>0x\<close> or \<^verbatim>\<open>0X\<close>; the longest run of hexadecimal digits that follows is
  the number, and \<open>None\<close> stands for \<^verbatim>\<open>NaN\<close>, the result when that run is empty.
  A string is a list of 8-bit characters, so the white space is that of Latin-1.
\<close>

definition isWhiteSpace :: "char \<Rightarrow> bool" where
  "isWhiteSpace c = (of_char c \<in> {9, 10, 11, 12, 13, 32, 160 :: nat})"

definition isHexDigit :: "char \<Rightarrow> bool" where
  "isHexDigit c = (c \<in> set ''0123456789abcdefABCDEF'')"

definition hexDigitValue :: "char \<Rightarrow> nat" where
  "hexDigitValue c =
     (let n = of_char c :: nat in
      if 48 \<le> n \<and> n \<le> 57 then n - 48
      else if 97 \<le> n \<and> n \<le> 102 then n - 87
      else if 65 \<le> n \<and> n \<le> 70 then n - 55
      else 0)"

definition parseInt16 :: "string \<Rightarrow> int option" where
  "parseInt16 s =
     (let s1 = dropWhile isWhiteSpace s;
          negative = (take 1 s1 = ''-'');
          s2 = (if take 1 s1 = ''+'' \<or> take 1 s1 = ''-'' then drop 1 s1 else s1);
          s3 = (if take 2 s2 = ''0x'' \<or> take 2 s2 = ''0X'' then drop 2 s2 else s2);
          z = takeWhile isHexDigit s3
      in if z = [] then None
         else Some ((if negative then - 1 else 1)
                    * int (foldl (\<lambda>acc c. acc * 16 + hexDigitValue c) 0 z)))"

text \<open>Storing a number into a \<^verbatim>\<open>Uint8Array\<close>: \<^verbatim>\<open>NaN\<close> becomes 0, an integer wraps.\<close>

definition toUint8 :: "int option \<Rightarrow> byte" where
  "toUint8 v = (case v of None \<Rightarrow> 0 | Some i \<Rightarrow> word_of_int i)"

definition substr :: "string \<Rightarrow> nat \<Rightarrow> nat \<Rightarrow> string" where
  "substr s start len = take len (drop start s)"

definition uuidToBytes :: "string \<Rightarrow> byte list" where
  "uuidToBytes uuid =
     (let cleanUuid = filter (\<lambda>c. c \<noteq> CHR ''-'') uuid
      in map (\<lambda>i. toUint8 (parseInt16 (substr cleanUuid (i * 2) 2))) [0..<16])"

text \<open>\<^verbatim>\<open>byte.toString(16).padStart(2, '0')\<close>, digit by digit.\<close>

definition hexChar :: "nat \<Rightarrow> char" where
  "hexChar d = ''0123456789abcdef'' ! d"

fun toString16 :: "nat \<Rightarrow> string" where
  "toString16 n =
     (if n < 16 then [hexChar n] else toString16 (n div 16) @ [hexChar (n mod 16)])"

declare toString16.simps [simp del]

definition padStart :: "nat \<Rightarrow> char \<Rightarrow> string \<Rightarrow> string" where
  "padStart n c s = replicate (n - length s) c @ s"

definition bytesToUuid :: "byte list \<Rightarrow> string" where
  "bytesToUuid bytes =
     (let hex = concat (map (\<lambda>byte. padStart 2 (CHR ''0'') (toString16 (unat byte))) bytes)
      in slice hex 0 8 @ ''-'' @ slice hex 8 12 @ ''-'' @ slice hex 12 16 @ ''-''
         @ slice hex 16 20 @ ''-'' @ slice hex 20 32)"

text \<open>
  \<^verbatim>\<open>addMetadata(buffer, timestamp, uuid)\<close>. The timestamp is the integer that the
  \<^verbatim>\<open>number\<close> argument holds, which \<^verbatim>\<open>BigInt\<close> leaves as it is (a number with a
  fractional part, on which \<^verbatim>\<open>BigInt\<close> throws, is not a millisecond timestamp and has
  no counterpart here). A fresh \<^verbatim>\<open>ArrayBuffer\<close> is filled with zeros.
\<close>

definition addMetadata :: "byte list \<Rightarrow> int \<Rightarrow> string \<Rightarrow> js_error + byte list" where
  "addMetadata buffer timestamp uuid =
     (let metadata = replicate METADATA_SIZE (0 :: byte) in
      case setBigUint64 metadata TIMESTAMP_OFFSET timestamp of
        Inl e \<Rightarrow> Inl e
      | Inr metadata1 \<Rightarrow>
          (let uuidBytes = uuidToBytes uuid in
           case Uint8Array_on metadata1 UUID_OFFSET 16 of
             Inl e \<Rightarrow> Inl e
           | Inr uuidArray \<Rightarrow>
               (case set_through metadata1 UUID_OFFSET 16 uuidBytes 0 of
                  Inl e \<Rightarrow> Inl e
                | Inr metadata2 \<Rightarrow>
                    (let combined = replicate (length buffer + METADATA_SIZE) (0 :: byte);
                         n = length combined in
                     case set_through combined 0 n metadata2 0 of
                       Inl e \<Rightarrow> Inl e
                     | Inr combined1 \<Rightarrow> set_through combined1 0 n buffer METADATA_SIZE))))"

text \<open>The object that \<^verbatim>\<open>extractMetadata\<close> returns.\<close>

record metadata =
  timestamp :: int
  uuid :: string
  data :: "byte list"

definition extractMetadata :: "byte list \<Rightarrow> js_error + metadata" where
  "extractMetadata buffer =
     (case getBigUint64 buffer TIMESTAMP_OFFSET of
        Inl e \<Rightarrow> Inl e
      | Inr big \<Rightarrow>
          (case Uint8Array_on buffer UUID_OFFSET 16 of
             Inl e \<Rightarrow> Inl e
           | Inr uuidBytes \<Rightarrow>
               Inr \<lparr>timestamp = Number_of big, uuid = bytesToUuid uuidBytes,
                    data = sliceFrom buffer (int METADATA_SIZE)\<rparr>))"

text \<open>Decoding what was encoded: \<^verbatim>\<open>extractMetadata(addMetadata(buffer, t, id))\<close>.\<close>

definition decode_encoded :: "byte list \<Rightarrow> int \<Rightarrow> string \<Rightarrow> js_error + metadata" where
  "decode_encoded buffer t ident =
     (case addMetadata buffer t ident of Inl e \<Rightarrow> Inl e | Inr framed \<Rightarrow> extractMetadata framed)"

text \<open>
  A well-formed UUID string: 36 characters, hyphens at positions 8, 13, 18 and 23,
  hexadecimal digits of either case elsewhere. \<open>lowerHex\<close> turns an upper-case
  hexadecimal letter into its lower-case form and keeps every other character.
\<close>

definition wellFormedUuid :: "string \<Rightarrow> bool" where
  "wellFormedUuid u =
     (length u = 36 \<and> u ! 8 = CHR ''-'' \<and> u ! 13 = CHR ''-'' \<and> u ! 18 = CHR ''-''
      \<and> u ! 23 = CHR ''-''
      \<and> list_all isHexDigit
           (slice u 0 8 @ slice u 9 13 @ slice u 14 18 @ slice u 19 23 @ slice u 24 36))"

definition lowerHex :: "char \<Rightarrow> char" where
  "lowerHex c =
     (if c = CHR ''A'' then CHR ''a'' else if c = CHR ''B'' then CHR ''b''
      else if c = CHR ''C'' then CHR ''c'' else if c = CHR ''D'' then CHR ''d''
      else if c = CHR ''E'' then CHR ''e'' else if c = CHR ''F'' then CHR ''f'' else c)"

subsection \<open>The rate limiter \<^verbatim>\<open>FrameRateOptimizer\<close>\<close>

text \<open>
  The fields that \<^verbatim>\<open>shouldDropFrame\<close> and \<^verbatim>\<open>adjustFrameRate\<close> read or write. The
  history bound \<^verbatim>\<open>maxHistorySize\<close> is a field that is never assigned after its
  initialisation to 10.
\<close>

record optimizer =
  frameHistory :: "real list"
  lastFrameTime :: real
  frameCount :: nat
  droppedFramesCount :: nat
  targetFps :: real

definition FrameRateOptimizer_maxHistorySize :: nat where
  "FrameRateOptimizer_maxHistorySize = 10"

text \<open>\<^verbatim>\<open>new FrameRateOptimizer(targetFps)\<close>; the parameter defaults to 10.\<close>

definition new_FrameRateOptimizer :: "real \<Rightarrow> optimizer" where
  "new_FrameRateOptimizer fps =
     \<lparr>frameHistory = [], lastFrameTime = 0, frameCount = 0, droppedFramesCount = 0,
      targetFps = fps\<rparr>"

text \<open>
  \<^verbatim>\<open>shouldDropFrame()\<close>, with \<open>now\<close> the value of \<^verbatim>\<open>performance.now()\<close>; the result
  is the returned boolean and the optimizer afterwards. In JavaScript \<^verbatim>\<open>1000 / 0\<close> is
  \<^verbatim>\<open>Infinity\<close>, above every elapsed time, whereas division by zero is 0 in HOL: the
  comparison is written out for a target rate of 0.
\<close>

definition shouldDropFrame :: "real \<Rightarrow> optimizer \<Rightarrow> bool \<times> optimizer" where
  "shouldDropFrame now opt =
     (let timeSinceLastFrame = now - lastFrameTime opt;
          tooFast = (if targetFps opt = 0 then True
                     else timeSinceLastFrame < 1000 / targetFps opt)
      in if tooFast then (True, opt\<lparr>droppedFramesCount := droppedFramesCount opt + 1\<rparr>)
         else (let h = frameHistory opt @ [now];
                   opt1 = opt\<lparr>lastFrameTime := now, frameHistory := h,
                             frameCount := frameCount opt + 1\<rparr>
               in (False, if length h > FrameRateOptimizer_maxHistorySize
                          then opt1\<lparr>frameHistory := tl h\<rparr> else opt1)))"

text \<open>\<^verbatim>\<open>adjustFrameRate(currentFps, latency)\<close>: the new rate and the optimizer afterwards.\<close>

definition adjustFrameRate :: "real \<Rightarrow> real \<Rightarrow> optimizer \<Rightarrow> real \<times> optimizer" where
  "adjustFrameRate currentFps latency opt =
     (let newFrameRate =
            (if currentFps < targetFps opt * 0.4 \<or> latency > 300
             then max 5 (targetFps opt - 1)
             else if currentFps > targetFps opt * 1.5 \<and> latency < 50
             then min 15 (targetFps opt + 1)
             else targetFps opt)
      in (newFrameRate, opt\<lparr>targetFps := newFrameRate\<rparr>))"

text \<open>A run of retuning calls, each with its measured rate and latency.\<close>

definition adjustAll :: "(real \<times> real) list \<Rightarrow> optimizer \<Rightarrow> optimizer" where
  "adjustAll calls opt = foldl (\<lambda>st (fps, lat). snd (adjustFrameRate fps lat st)) opt calls"

subsection \<open>The latency window \<^verbatim>\<open>LatencyMonitor\<close>\<close>






section \<open>Theorems\<close>

subsection \<open>Reconnect backoff\<close>



subsection \<open>The outbound queue\<close>

lemma sendMessage_closed:
  assumes "wsRef s \<noteq> Some OPEN"
  shows "messageQueue (sendMessage now m s) =
           (if length (messageQueue s) + 1 > 50 then tl (messageQueue s @ [m])
            else messageQueue s @ [m])"
    and "sent (sendMessage now m s) = sent s"
    and "wsRef (sendMessage now m s) = wsRef s"
    and "warnings (sendMessage now m s)
           = warnings s + (if length (messageQueue s) + 1 > 50 then 1 else 0)"
    and "isConnected (sendMessage now m s) = isConnected s"
  using assms by (simp_all add: sendMessage_def Let_def)

lemma sendMessage_open:
  assumes "wsRef s = Some OPEN"
  shows "sent (sendMessage now m s) = sent s @ [frame_of now m]"
    and "messageQueue (sendMessage now m s) = messageQueue s"
    and "wsRef (sendMessage now m s) = wsRef s"
  using assms by (simp_all add: sendMessage_def frame_of_def split: message.splits)

text \<open>On an open socket a run of submissions goes out in submission order.\<close>

lemma sendAll_open:
  "wsRef s = Some OPEN \<Longrightarrow>
     sent (sendAll now msgs s) = sent s @ map (frame_of now) msgs
     \<and> messageQueue (sendAll now msgs s) = messageQueue s
     \<and> wsRef (sendAll now msgs s) = Some OPEN"
  unfolding sendAll_def
  by (induction msgs arbitrary: s) (simp_all add: sendMessage_open)

text \<open>
  While the socket is not open the queue holds the last 50 submissions: the queue after
  a run of submissions is the old queue followed by the run, without as many of its
  oldest entries as exceed 50, and each of those costs one warning.
\<close>

lemma sendAll_closed:
  "wsRef s \<noteq> Some OPEN \<Longrightarrow> length (messageQueue s) \<le> 50 \<Longrightarrow>
     messageQueue (sendAll now msgs s)
       = drop (length (messageQueue s) + length msgs - 50) (messageQueue s @ msgs)
     \<and> sent (sendAll now msgs s) = sent s
     \<and> wsRef (sendAll now msgs s) = wsRef s
     \<and> warnings (sendAll now msgs s)
       = warnings s + (length (messageQueue s) + length msgs - 50)"
  unfolding sendAll_def
proof (induction msgs arbitrary: s)
  case Nil
  then show ?case by simp
next
  case (Cons m msgs)
  let ?s' = "sendMessage now m s"
  have q: "messageQueue ?s' =
      (if length (messageQueue s) + 1 > 50 then tl (messageQueue s @ [m])
       else messageQueue s @ [m])"
    and w: "wsRef ?s' = wsRef s" and st: "sent ?s' = sent s"
    and wa: "warnings ?s' = warnings s + (if length (messageQueue s) + 1 > 50 then 1 else 0)"
    using Cons.prems(1) by (simp_all add: sendMessage_closed)
  have len: "length (messageQueue ?s') \<le> 50"
    using Cons.prems(2) by (simp add: q)
  have w': "wsRef ?s' \<noteq> Some OPEN"
    using w Cons.prems(1) by simp
  note IH = Cons.IH [OF w' len]
  show ?case
  proof (cases "length (messageQueue s) + 1 > 50")
    case True
    then have l50: "length (messageQueue s) = 50"
      using Cons.prems(2) by simp
    then obtain x xs where xs: "messageQueue s = x # xs"
      by (cases "messageQueue s") auto
    with l50 have lx: "length xs = 49" by simp
    have q': "messageQueue ?s' = xs @ [m]"
      using q True xs by simp
    show ?thesis
      using IH True q' xs lx w st wa by (simp add: Suc_diff_le)
  next
    case False
    then have q': "messageQueue ?s' = messageQueue s @ [m]"
      using q by simp
    show ?thesis
      using IH False q' w st wa by simp
  qed
qed

text \<open>
  Claim C6. While the socket is not open, \<open>sendMessage\<close> appends the message to the
  queue and, when the queue then holds more than 50 entries, removes exactly its head
  and logs one warning; nothing is sent and nothing is thrown. From an empty queue, 51
  submissions leave the 50 newest in submission order, the first one gone, with one
  warning.
\<close>

theorem enqueue_evicts_oldest:
  "wsRef s \<noteq> Some OPEN \<longrightarrow>
     messageQueue (sendMessage now m s)
       = (if length (messageQueue s @ [m]) > 50 then tl (messageQueue s @ [m])
          else messageQueue s @ [m])
     \<and> warnings (sendMessage now m s)
       = warnings s + (if length (messageQueue s @ [m]) > 50 then 1 else 0)
     \<and> sent (sendMessage now m s) = sent s
     \<and> (messageQueue s = [] \<and> length msgs = 51 \<longrightarrow>
          messageQueue (sendAll now msgs s) = tl msgs
          \<and> length (messageQueue (sendAll now msgs s)) = 50
          \<and> warnings (sendAll now msgs s) = warnings s + 1
          \<and> sent (sendAll now msgs s) = sent s)"
  using sendAll_closed [of s now msgs]
  by (auto simp: sendMessage_closed drop_Suc)

theorem enqueue_evicts_oldest_witness:
  "wsRef initial_hook \<noteq> Some OPEN \<and> messageQueue initial_hook = []
   \<and> length (ObjectMsg ''first'' # map ObjectMsg (replicate 49 ''frame'' @ [''last''])) = 51
   \<and> messageQueue (sendMessage 0 (ObjectMsg ''first'') initial_hook) = [ObjectMsg ''first'']
   \<and> messageQueue (sendAll 0
        (ObjectMsg ''first'' # map ObjectMsg (replicate 49 ''frame'' @ [''last'']))
        initial_hook)
       = map ObjectMsg (replicate 49 ''frame'' @ [''last''])"
  using enqueue_evicts_oldest [of initial_hook 0 "ObjectMsg ''first''"
      "ObjectMsg ''first'' # map ObjectMsg (replicate 49 ''frame'' @ [''last''])"]
  by (simp add: initial_hook_def)

subsection \<open>Opening the connection\<close>

text \<open>
  Had the queue still been there when the flush effect runs on an open socket, the
  effect would transmit all of it, oldest first, and leave the queue empty.
\<close>

lemma flushEffect_sends_queue:
  "isConnected s \<Longrightarrow> wsRef s = Some OPEN \<Longrightarrow>
     sent (flushEffect now s) = sent s @ map (frame_of now) (messageQueue s)
     \<and> messageQueue (flushEffect now s) = []"
  using sendAll_open [of "s\<lparr>messageQueue := [], messageQueueSize := 0\<rparr>" now "messageQueue s"]
  by (auto simp: flushEffect_def Let_def sendAll_def)

text \<open>
  But \<open>onopen\<close> has emptied the queue before the effect can run, so opening the
  connection transmits nothing, whatever was queued.
\<close>

lemma flush_after_onopen:
  "sent (flushEffect now (onopen s)) = sent s \<and> messageQueue (flushEffect now (onopen s)) = []"
  by (simp add: flushEffect_def onopen_def)

text \<open>
  Claim C1 says that the messages queued while the connection was down are transmitted,
  oldest first, when it opens, ahead of any new message. Evaluated on the code: three
  frames are submitted while the socket is still connecting and all three are queued in
  order. The socket opens: \<open>onopen\<close> runs, then the flush effect. No frame has gone to
  the socket and the queue is empty: the three frames are lost. A fourth frame submitted
  afterwards is the only one the socket ever gets.
\<close>

theorem queued_messages_lost_on_open:
  "messageQueue (sendAll 0 [ArrayBufferMsg [1], ArrayBufferMsg [2], ArrayBufferMsg [3]]
       (connect True initial_hook))
     = [ArrayBufferMsg [1], ArrayBufferMsg [2], ArrayBufferMsg [3]]
   \<and> sent (flushEffect 1 (onopen
        (sendAll 0 [ArrayBufferMsg [1], ArrayBufferMsg [2], ArrayBufferMsg [3]]
          (connect True initial_hook)))) = []
   \<and> messageQueue (flushEffect 1 (onopen
        (sendAll 0 [ArrayBufferMsg [1], ArrayBufferMsg [2], ArrayBufferMsg [3]]
          (connect True initial_hook)))) = []
   \<and> sent (sendMessage 2 (ArrayBufferMsg [4]) (flushEffect 1 (onopen
        (sendAll 0 [ArrayBufferMsg [1], ArrayBufferMsg [2], ArrayBufferMsg [3]]
          (connect True initial_hook))))) = [BinaryFrame [4]]"
  by (simp add: sendAll_def sendMessage_def connect_def initial_hook_def onopen_def
      flushEffect_def Let_def)

subsection \<open>The codec: hexadecimal digits\<close>

lemma hex_not_space:
  assumes "isHexDigit c"
  shows "\<not> isWhiteSpace c"
  using assms by (auto simp: isHexDigit_def isWhiteSpace_def)

lemma hex_not_special:
  assumes "isHexDigit c"
  shows "c \<noteq> CHR ''+''" "c \<noteq> CHR ''-''" "c \<noteq> CHR ''x''" "c \<noteq> CHR ''X''"
  using assms by (auto simp: isHexDigit_def)

lemma hex_value_less:
  assumes "isHexDigit c"
  shows "hexDigitValue c < 16"
  using assms by (auto simp: isHexDigit_def hexDigitValue_def)

lemma hexChar_value:
  assumes "isHexDigit c"
  shows "hexChar (hexDigitValue c) = lowerHex c"
  using assms unfolding isHexDigit_def
  by (simp, (elim disjE; simp add: hexDigitValue_def hexChar_def lowerHex_def))

text \<open>Two hexadecimal digits are read as one number below 256.\<close>

lemma parse_hex_pair:
  assumes "isHexDigit a" "isHexDigit b"
  shows "parseInt16 [a, b] = Some (int (hexDigitValue a * 16 + hexDigitValue b))"
  using hex_not_space [OF assms(1)] hex_not_special [OF assms(1)]
    hex_not_special [OF assms(2)] assms
  by (simp add: parseInt16_def Let_def)

lemma toString16_digit: "n < 16 \<Longrightarrow> toString16 n = [hexChar n]"
  by (simp add: toString16.simps)

lemma toString16_two:
  assumes "0 < d" "d < 16" "e < 16"
  shows "toString16 (d * 16 + e) = [hexChar d, hexChar e]"
proof -
  have "\<not> d * 16 + e < 16"
    using assms by simp
  moreover have "(d * 16 + e) div 16 = d" "(d * 16 + e) mod 16 = e"
    using assms by simp_all
  ultimately show ?thesis
    using toString16.simps [of "d * 16 + e"] assms by (simp add: toString16_digit)
qed

lemma hexChar_0: "hexChar 0 = CHR ''0''"
  by (simp add: hexChar_def)

text \<open>Writing the byte of two digits back gives the two digits in lower case.\<close>

lemma hex_pair_roundtrip:
  assumes "isHexDigit a" "isHexDigit b"
  shows "padStart 2 (CHR ''0'') (toString16 (unat (toUint8 (parseInt16 [a, b]))))
           = [lowerHex a, lowerHex b]"
proof -
  let ?d = "hexDigitValue a" and ?e = "hexDigitValue b"
  have d: "?d < 16" and e: "?e < 16"
    using assms by (simp_all add: hex_value_less)
  then have v: "?d * 16 + ?e < 256" by simp
  define n where "n = ?d * 16 + ?e"
  have "toUint8 (parseInt16 [a, b]) = (word_of_nat n :: byte)"
    unfolding n_def by (simp add: parse_hex_pair [OF assms] toUint8_def)
  moreover have "unat (word_of_nat n :: byte) = n"
    using v unfolding n_def [symmetric] by (simp add: unat_of_nat)
  ultimately have u: "unat (toUint8 (parseInt16 [a, b])) = ?d * 16 + ?e"
    unfolding n_def by simp
  show ?thesis
  proof (cases "?d = 0")
    case True
    then show ?thesis
      using u e hexChar_value [OF assms(1)] hexChar_value [OF assms(2)]
      by (simp add: toString16_digit padStart_def hexChar_0)
  next
    case False
    then show ?thesis
      using u d e hexChar_value [OF assms(1)] hexChar_value [OF assms(2)]
      by (simp add: toString16_two padStart_def)
  qed
qed

subsection \<open>The codec: identifiers\<close>

lemma length_36_explode:
  assumes "length (u :: 'a list) = 36"
  obtains
    c0 c1 c2 c3 c4 c5 c6 c7 c8 c9 c10 c11 c12 c13 c14 c15 c16 c17 c18 c19 c20 c21 c22
    c23 c24 c25 c26 c27 c28 c29 c30 c31 c32 c33 c34 c35
  where "u = [c0, c1, c2, c3, c4, c5, c6, c7, c8, c9, c10, c11, c12, c13, c14, c15, c16,
         c17, c18, c19, c20, c21, c22, c23, c24, c25, c26, c27, c28, c29, c30, c31,
         c32, c33, c34, c35]"
proof -
  from assms have "\<exists>
    c0 c1 c2 c3 c4 c5 c6 c7 c8 c9 c10 c11 c12 c13 c14 c15 c16 c17 c18 c19 c20 c21 c22
    c23 c24 c25 c26 c27 c28 c29 c30 c31 c32 c33 c34 c35.
      u = [c0, c1, c2, c3, c4, c5, c6, c7, c8, c9, c10, c11, c12, c13, c14, c15, c16,
         c17, c18, c19, c20, c21, c22, c23, c24, c25, c26, c27, c28, c29, c30, c31,
         c32, c33, c34, c35]"
    by (clarsimp simp: eval_nat_numeral length_Suc_conv)
  then show ?thesis by (elim exE) (rule that)
qed

lemma lowerHex_hyphen: "lowerHex (CHR ''-'') = CHR ''-''"
  by (simp add: lowerHex_def)

lemma upt_16: "[0..<16] = [0, 1, 2, 3, 4, 5, 6, 7, 8, 9, 10, 11, 12, 13, 14, 15]"
  by (simp add: upt_rec)

text \<open>
  A well-formed identifier survives \<open>uuidToBytes\<close> and \<open>bytesToUuid\<close> up to the case
  of its hexadecimal letters.
\<close>

lemma uuid_roundtrip:
  assumes "wellFormedUuid u"
  shows "bytesToUuid (uuidToBytes u) = map lowerHex u"
proof -
  from assms have len: "length u = 36"
    by (simp add: wellFormedUuid_def)
  then obtain
    c0 c1 c2 c3 c4 c5 c6 c7 c8 c9 c10 c11 c12 c13 c14 c15 c16 c17 c18 c19 c20 c21 c22
    c23 c24 c25 c26 c27 c28 c29 c30 c31 c32 c33 c34 c35
    where u: "u = [c0, c1, c2, c3, c4, c5, c6, c7, c8, c9, c10, c11, c12, c13, c14, c15, c16,
         c17, c18, c19, c20, c21, c22, c23, c24, c25, c26, c27, c28, c29, c30, c31,
         c32, c33, c34, c35]"
    by (rule length_36_explode)
  from assms have hy: "c8 = CHR ''-''" "c13 = CHR ''-''" "c18 = CHR ''-''" "c23 = CHR ''-''"
    by (simp_all add: wellFormedUuid_def u)
  from assms have hex:
    "isHexDigit c0" "isHexDigit c1" "isHexDigit c2" "isHexDigit c3" "isHexDigit c4"
    "isHexDigit c5" "isHexDigit c6" "isHexDigit c7" "isHexDigit c9" "isHexDigit c10"
    "isHexDigit c11" "isHexDigit c12" "isHexDigit c14" "isHexDigit c15"
    "isHexDigit c16" "isHexDigit c17" "isHexDigit c19" "isHexDigit c20"
    "isHexDigit c21" "isHexDigit c22" "isHexDigit c24" "isHexDigit c25"
    "isHexDigit c26" "isHexDigit c27" "isHexDigit c28" "isHexDigit c29"
    "isHexDigit c30" "isHexDigit c31" "isHexDigit c32" "isHexDigit c33"
    "isHexDigit c34" "isHexDigit c35"
    by (simp_all add: wellFormedUuid_def u slice_def)
  note ne = hex [THEN hex_not_special(2)]
  have clean: "filter (\<lambda>c. c \<noteq> CHR ''-'') u =
        [c0, c1, c2, c3, c4, c5, c6, c7, c9, c10, c11, c12, c14, c15, c16, c17, c19,
         c20, c21, c22, c24, c25, c26, c27, c28, c29, c30, c31, c32, c33, c34, c35]"
    using ne by (simp add: u hy)
  have bytes: "uuidToBytes u =
        [toUint8 (parseInt16 [c0, c1]), toUint8 (parseInt16 [c2, c3]),
         toUint8 (parseInt16 [c4, c5]), toUint8 (parseInt16 [c6, c7]),
         toUint8 (parseInt16 [c9, c10]), toUint8 (parseInt16 [c11, c12]),
         toUint8 (parseInt16 [c14, c15]), toUint8 (parseInt16 [c16, c17]),
         toUint8 (parseInt16 [c19, c20]), toUint8 (parseInt16 [c21, c22]),
         toUint8 (parseInt16 [c24, c25]), toUint8 (parseInt16 [c26, c27]),
         toUint8 (parseInt16 [c28, c29]), toUint8 (parseInt16 [c30, c31]),
         toUint8 (parseInt16 [c32, c33]), toUint8 (parseInt16 [c34, c35])]"
    unfolding uuidToBytes_def Let_def clean upt_16 by (simp add: substr_def)
  show ?thesis
    unfolding bytes bytesToUuid_def Let_def
    using hex by (simp add: hex_pair_roundtrip slice_def u hy lowerHex_hyphen)
qed

lemma length_uuidToBytes: "length (uuidToBytes u) = 16"
  by (simp add: uuidToBytes_def)

subsection \<open>The codec: timestamps\<close>

lemma length_be_bytes: "length (be_bytes k v) = k"
  by (induction k arbitrary: v) simp_all

lemma be_value_snoc: "be_value (bs @ [b]) = be_value bs * 256 + uint b"
  by (simp add: be_value_def)

lemma be_value_be_bytes: "be_value (be_bytes k v) = v mod 256 ^ k"
proof (induction k arbitrary: v)
  case 0
  then show ?case by (simp add: be_value_def)
next
  case (Suc k)
  have "uint (word_of_int (v mod 256) :: byte) = v mod 256"
    by (simp add: uint_word_of_int)
  then have "be_value (be_bytes (Suc k) v) = (v div 256 mod 256 ^ k) * 256 + v mod 256"
    by (simp add: be_value_snoc Suc.IH)
  also have "\<dots> = v mod 256 ^ Suc k"
    using zmod_zmult2_eq [of "256 ^ k" v 256] by (simp add: mult.commute)
  finally show ?case .
qed

lemma bit_length_le: "n < 2 ^ k \<Longrightarrow> bit_length n \<le> k"
proof (induction k arbitrary: n)
  case 0
  then show ?case by (simp add: bit_length.simps)
next
  case (Suc k)
  show ?case
  proof (cases "n \<le> 0")
    case True
    then show ?thesis by (simp add: bit_length.simps)
  next
    case False
    from Suc.prems have "n div 2 < 2 ^ k" by simp
    then have "bit_length (n div 2) \<le> k" by (rule Suc.IH)
    then show ?thesis using False by (simp add: bit_length.simps [of n])
  qed
qed

text \<open>Every integer from 0 to \<open>2 ^ 53\<close> is a double, so \<open>Number_of\<close> keeps it.\<close>

lemma Number_of_safe:
  assumes "0 \<le> t" "t \<le> 2 ^ 53"
  shows "Number_of t = t"
proof (cases "t < 2 ^ 53")
  case True
  then have "bit_length t \<le> 53" by (rule bit_length_le)
  then show ?thesis using assms by (simp add: Number_of_def)
next
  case False
  have "Number_of 9007199254740992 = 9007199254740992"
    by code_simp
  moreover from False assms have "t = 9007199254740992"
    by simp
  ultimately show ?thesis by simp
qed

subsection \<open>The codec: frames\<close>

lemma sliceFrom_drop: "sliceFrom xs (int k) = drop k xs"
  by (cases "k \<le> length xs") (simp_all add: sliceFrom_def slice_def min_def)

lemma sliceFrom_METADATA_SIZE: "sliceFrom xs (int METADATA_SIZE) = drop 24 xs"
  using sliceFrom_drop [of xs 24] by (simp add: METADATA_SIZE_def)

text \<open>\<open>addMetadata\<close> never takes an error branch; its result is header, then payload.\<close>

lemma addMetadata_layout:
  "addMetadata buffer t u = Inr (be_bytes 8 (t mod 2 ^ 64) @ uuidToBytes u @ buffer)"
  by (simp add: addMetadata_def setBigUint64_def Uint8Array_on_def set_through_def
      METADATA_SIZE_def TIMESTAMP_OFFSET_def UUID_OFFSET_def Let_def
      length_be_bytes length_uuidToBytes)

lemma extractMetadata_layout:
  assumes "length h = 8" "length i = 16"
  shows "extractMetadata (h @ i @ p)
           = Inr \<lparr>timestamp = Number_of (be_value h), uuid = bytesToUuid i, data = p\<rparr>"
  using assms
  by (simp add: extractMetadata_def getBigUint64_def Uint8Array_on_def
      sliceFrom_METADATA_SIZE TIMESTAMP_OFFSET_def UUID_OFFSET_def)

lemma decode_encoded_eq:
  "decode_encoded buffer t u
     = Inr \<lparr>timestamp = Number_of (t mod 2 ^ 64), uuid = bytesToUuid (uuidToBytes u),
            data = buffer\<rparr>"
proof -
  have "be_value (be_bytes 8 (t mod 2 ^ 64)) = t mod 2 ^ 64"
    by (simp add: be_value_be_bytes)
  then show ?thesis
    by (simp add: decode_encoded_def addMetadata_layout extractMetadata_layout
        length_be_bytes length_uuidToBytes)
qed

lemma extractMetadata_short:
  "length buffer < 24 \<Longrightarrow> extractMetadata buffer = Inl RangeError"
  by (simp add: extractMetadata_def getBigUint64_def Uint8Array_on_def
      METADATA_SIZE_def TIMESTAMP_OFFSET_def UUID_OFFSET_def)

lemma extractMetadata_long:
  "24 \<le> length buffer \<Longrightarrow>
     extractMetadata buffer
       = Inr \<lparr>timestamp = Number_of (be_value (take 8 buffer)),
              uuid = bytesToUuid (take 16 (drop 8 buffer)),
              data = drop 24 buffer\<rparr>"
  by (simp add: extractMetadata_def getBigUint64_def Uint8Array_on_def
      sliceFrom_METADATA_SIZE TIMESTAMP_OFFSET_def UUID_OFFSET_def)

subsection \<open>The codec: round trip\<close>

text \<open>
  Counterexample to claim C2 as the specification states it, for every timestamp that
  fits an unsigned 64-bit value. The timestamp \<open>2 ^ 53 + 1\<close> fits, but it is not a
  double: \<^verbatim>\<open>Number\<close> rounds it to \<open>2 ^ 53\<close>, and that is the timestamp decoding
  returns, whether the caller's value was rounded on its way into the \<^verbatim>\<open>number\<close>
  parameter or only on the way out.
\<close>

theorem addMetadata_roundtrip_counterexample:
  "(0 :: int) \<le> 9007199254740993 \<and> (9007199254740993 :: int) < 2 ^ 64
   \<and> wellFormedUuid ''123e4567-e89b-12d3-a456-426614174000''
   \<and> Number_of 9007199254740993 = 9007199254740992
   \<and> decode_encoded [1, 2, 3] 9007199254740993 ''123e4567-e89b-12d3-a456-426614174000''
       = Inr \<lparr>timestamp = 9007199254740992,
              uuid = ''123e4567-e89b-12d3-a456-426614174000'', data = [1, 2, 3]\<rparr>
   \<and> decode_encoded [1, 2, 3] (Number_of 9007199254740993)
         ''123e4567-e89b-12d3-a456-426614174000''
       \<noteq> Inr \<lparr>timestamp = 9007199254740993,
              uuid = ''123e4567-e89b-12d3-a456-426614174000'', data = [1, 2, 3]\<rparr>"
proof -
  have w: "wellFormedUuid ''123e4567-e89b-12d3-a456-426614174000''"
    by (simp add: wellFormedUuid_def slice_def isHexDigit_def)
  have n: "Number_of 9007199254740993 = 9007199254740992"
    by code_simp
  have m: "Number_of 9007199254740992 = 9007199254740992"
    by code_simp
  show ?thesis
    using w n m uuid_roundtrip [OF w]
    by (simp add: decode_encoded_eq lowerHex_def)
qed

text \<open>
  Claim C2, amended. For every payload, every timestamp \<open>t\<close> with \<open>0 \<le> t < 2 ^ 64\<close>
  that a JavaScript number holds exactly (\<open>Number_of t = t\<close>; by \<open>Number_of_safe\<close>
  this covers every \<open>t \<le> 2 ^ 53\<close>) and every well-formed UUID string, decoding the
  encoded frame succeeds and returns the payload bytes unchanged, the timestamp \<open>t\<close>, and
  the UUID in 8-4-4-4-12 grouping with its hexadecimal letters in lower case.
\<close>

theorem addMetadata_roundtrip:
  assumes "0 \<le> t" "t < 2 ^ 64" "Number_of t = t" "wellFormedUuid u"
  shows "decode_encoded buffer t u
           = Inr \<lparr>timestamp = t, uuid = map lowerHex u, data = buffer\<rparr>"
  using assms by (simp add: decode_encoded_eq uuid_roundtrip)

theorem addMetadata_roundtrip_witness:
  "(0 :: int) \<le> 1700000000000 \<and> (1700000000000 :: int) < 2 ^ 64
   \<and> Number_of 1700000000000 = 1700000000000
   \<and> wellFormedUuid ''123E4567-e89b-12D3-a456-426614174000''
   \<and> decode_encoded [1, 2, 3] 1700000000000 ''123E4567-e89b-12D3-a456-426614174000''
       = Inr \<lparr>timestamp = 1700000000000,
              uuid = ''123e4567-e89b-12d3-a456-426614174000'', data = [1, 2, 3]\<rparr>"
proof -
  have w: "wellFormedUuid ''123E4567-e89b-12D3-a456-426614174000''"
    by (simp add: wellFormedUuid_def slice_def isHexDigit_def)
  have n: "Number_of 1700000000000 = 1700000000000"
    by code_simp
  have r: "(0 :: int) \<le> 1700000000000" "(1700000000000 :: int) < 2 ^ 64"
    by simp_all
  show ?thesis
    using addMetadata_roundtrip [OF r n w, of "[1, 2, 3]"] w n
    by (simp add: lowerHex_def)
qed

subsection \<open>The codec: malformed identifiers\<close>

text \<open>
  Counterexample to claim C3 as the specification states it. The string
  \<^verbatim>\<open>not-a-uuid\<close> is not a well-formed identifier, yet encoding it does not fail: it
  yields the same header as the identifier of 32 zeros, and decoding returns that
  identifier instead of the one given.
\<close>

theorem addMetadata_malformed_counterexample:
  "\<not> wellFormedUuid ''not-a-uuid''
   \<and> addMetadata [] 0 ''not-a-uuid'' = Inr (replicate 24 0)
   \<and> addMetadata [] 0 ''00000000-0000-0000-0000-000000000000'' = Inr (replicate 24 0)
   \<and> decode_encoded [] 0 ''not-a-uuid''
       = Inr \<lparr>timestamp = 0, uuid = ''00000000-0000-0000-0000-000000000000'', data = []\<rparr>"
  by code_simp

text \<open>
  Claim C3, amended. \<open>addMetadata\<close> has no failure that depends on the identifier:
  for every identifier string, well-formed or not, it returns the 24-byte header followed
  by the payload. The 16 identifier bytes are those of \<open>uuidToBytes\<close>: byte \<open>i\<close> is what
  \<^verbatim>\<open>parseInt\<close> reads from characters \<open>2 * i\<close> and \<open>2 * i + 1\<close> of the string without its
  hyphens, and it is 0 where \<^verbatim>\<open>parseInt\<close> reads no number.
\<close>

theorem addMetadata_total:
  "(\<exists>framed. addMetadata buffer t u = Inr framed
      \<and> length framed = 24 + length buffer
      \<and> take 8 framed = be_bytes 8 (t mod 2 ^ 64)
      \<and> take 16 (drop 8 framed) = uuidToBytes u
      \<and> drop 24 framed = buffer)
   \<and> (i < 16 \<and> parseInt16 (substr (filter (\<lambda>c. c \<noteq> CHR ''-'') u) (i * 2) 2) = None
        \<longrightarrow> uuidToBytes u ! i = 0)"
  by (simp add: addMetadata_layout length_be_bytes length_uuidToBytes uuidToBytes_def
      toUint8_def)

theorem addMetadata_total_witness:
  "(\<exists>framed. addMetadata [9] 5 ''zz'' = Inr framed \<and> length framed = 25
      \<and> drop 24 framed = [9])
   \<and> (0 :: nat) < 16
   \<and> parseInt16 (substr (filter (\<lambda>c. c \<noteq> CHR ''-'') ''zz'') (0 * 2) 2) = None
   \<and> uuidToBytes ''zz'' ! 0 = 0"
proof -
  have p: "parseInt16 (substr (filter (\<lambda>c. c \<noteq> CHR ''-'') ''zz'') (0 * 2) 2) = None"
    by (simp add: substr_def parseInt16_def isWhiteSpace_def isHexDigit_def)
  show ?thesis
    using addMetadata_total [of "[9]" 5 "''zz''" 0] p by auto
qed

subsection \<open>The codec: decoding\<close>

text \<open>
  Claim C4. \<open>extractMetadata\<close> fails on every buffer shorter than 24 bytes. The
  exception is the \<^verbatim>\<open>RangeError\<close> of the built-ins: of \<^verbatim>\<open>getBigUint64\<close> below 8
  bytes, of the \<^verbatim>\<open>Uint8Array\<close> constructor from 8 to 23 bytes.
\<close>

theorem extractMetadata_short_buffer:
  "length buffer < 24 \<Longrightarrow> extractMetadata buffer = Inl RangeError"
  by (rule extractMetadata_short)

theorem extractMetadata_short_buffer_witness:
  "length (replicate 23 (0 :: byte)) < 24
   \<and> extractMetadata (replicate 23 0) = Inl RangeError
   \<and> extractMetadata [] = Inl RangeError"
  using extractMetadata_short_buffer [of "replicate 23 0"]
    extractMetadata_short_buffer [of "[]"]
  by simp

text \<open>
  Claim C10. On every buffer of at least 24 bytes \<open>extractMetadata\<close> succeeds, and the
  payload it returns is the buffer from byte 24 on, of length \<open>length buffer - 24\<close>.
\<close>

theorem extractMetadata_long_buffer:
  "24 \<le> length buffer \<Longrightarrow>
     (\<exists>r. extractMetadata buffer = Inr r \<and> data r = drop 24 buffer
          \<and> length (data r) = length buffer - 24)"
  by (simp add: extractMetadata_long)

theorem extractMetadata_long_buffer_witness:
  "24 \<le> length (replicate 24 (0 :: byte) @ [7, 8])
   \<and> (\<exists>r. extractMetadata (replicate 24 0 @ [7, 8]) = Inr r \<and> data r = [7, 8]
          \<and> length (data r) = 2)"
  using extractMetadata_long_buffer [of "replicate 24 0 @ [7, 8]"]
  by simp

subsection \<open>Admission\<close>


lemma shouldDropFrame_zero: "targetFps opt = 0 \<Longrightarrow> fst (shouldDropFrame now opt)"
  by (simp add: shouldDropFrame_def Let_def)






subsection \<open>Retuning\<close>

lemma adjustFrameRate_range:
  assumes "5 \<le> targetFps opt" "targetFps opt \<le> 15"
  shows "5 \<le> targetFps (snd (adjustFrameRate c l opt))"
    and "targetFps (snd (adjustFrameRate c l opt)) \<le> 15"
  using assms by (simp_all add: adjustFrameRate_def Let_def)

lemma adjustAll_range:
  "5 \<le> targetFps opt \<Longrightarrow> targetFps opt \<le> 15 \<Longrightarrow>
     5 \<le> targetFps (adjustAll calls opt) \<and> targetFps (adjustAll calls opt) \<le> 15"
  unfolding adjustAll_def
proof (induction calls arbitrary: opt)
  case Nil
  then show ?case by simp
next
  case (Cons call calls)
  obtain c l where call: "call = (c, l)" by (cases call)
  show ?case
    using Cons.IH [of "snd (adjustFrameRate c l opt)"] adjustFrameRate_range [OF Cons.prems]
    by (simp add: call)
qed

text \<open>
  Claim C9. One call of \<open>adjustFrameRate\<close> returns the new target rate, which is the
  old one less 1 but not below 5 when the measured rate is under 0.4 of the target or the
  latency is over 300 ms; otherwise the old one plus 1 but not above 15 when the measured
  rate is over 1.5 of the target and the latency is under 50 ms; otherwise the old one.
  From the default of 10 the target rate stays between 5 and 15 through every run of
  calls.
\<close>

theorem adjustFrameRate_steps:
  "fst (adjustFrameRate c l opt) = targetFps (snd (adjustFrameRate c l opt))
   \<and> (c < targetFps opt * 0.4 \<or> l > 300 \<longrightarrow>
        targetFps (snd (adjustFrameRate c l opt)) = max 5 (targetFps opt - 1))
   \<and> (\<not> (c < targetFps opt * 0.4 \<or> l > 300) \<and> c > targetFps opt * 1.5 \<and> l < 50 \<longrightarrow>
        targetFps (snd (adjustFrameRate c l opt)) = min 15 (targetFps opt + 1))
   \<and> (\<not> (c < targetFps opt * 0.4 \<or> l > 300) \<and> \<not> (c > targetFps opt * 1.5 \<and> l < 50) \<longrightarrow>
        targetFps (snd (adjustFrameRate c l opt)) = targetFps opt)
   \<and> 5 \<le> targetFps (adjustAll calls (new_FrameRateOptimizer 10))
   \<and> targetFps (adjustAll calls (new_FrameRateOptimizer 10)) \<le> 15"
proof -
  have "5 \<le> targetFps (adjustAll calls (new_FrameRateOptimizer 10))
      \<and> targetFps (adjustAll calls (new_FrameRateOptimizer 10)) \<le> 15"
    by (rule adjustAll_range) (simp_all add: new_FrameRateOptimizer_def)
  then show ?thesis
    by (simp add: adjustFrameRate_def Let_def)
qed

theorem adjustFrameRate_steps_witness:
  "((3 :: real) < targetFps (new_FrameRateOptimizer 10) * 0.4 \<or> (20 :: real) > 300)
   \<and> targetFps (snd (adjustFrameRate 3 20 (new_FrameRateOptimizer 10))) = 9
   \<and> \<not> ((16 :: real) < targetFps (new_FrameRateOptimizer 10) * 0.4 \<or> (20 :: real) > 300)
   \<and> (16 :: real) > targetFps (new_FrameRateOptimizer 10) * 1.5 \<and> (20 :: real) < 50
   \<and> targetFps (snd (adjustFrameRate 16 20 (new_FrameRateOptimizer 10))) = 11
   \<and> \<not> ((8 :: real) > targetFps (new_FrameRateOptimizer 10) * 1.5 \<and> (20 :: real) < 50)
   \<and> \<not> ((8 :: real) < targetFps (new_FrameRateOptimizer 10) * 0.4 \<or> (20 :: real) > 300)
   \<and> targetFps (snd (adjustFrameRate 8 20 (new_FrameRateOptimizer 10))) = 10
   \<and> 5 \<le> targetFps (adjustAll [(3, 20), (0, 400)] (new_FrameRateOptimizer 10))"
  using adjustFrameRate_steps [of 3 20 "new_FrameRateOptimizer 10" "[(3, 20), (0, 400)]"]
    adjustFrameRate_steps [of 16 20 "new_FrameRateOptimizer 10" "[]"]
    adjustFrameRate_steps [of 8 20 "new_FrameRateOptimizer 10" "[]"]
  by (simp add: new_FrameRateOptimizer_def)

subsection \<open>The latency trend\<close>













end
